theory Spec2Isabelle
  imports Complex_Main "HOL-Library.Word"
begin

unbundle bit_operations_syntax

section \<open>The powermon protocol codec and session (powermon.cpp)\<close>

text \<open>
  A shallow embedding of \<^verbatim>\<open>src/powermon/cpp/powermon.cpp\<close>: the 7-byte packet, its
  checksum, the request constructor, the response decoder \<^verbatim>\<open>Response::Get\<close> and the
  exchange \<^verbatim>\<open>Device::Get\<close>. Bytes are \<open>8 word\<close>, the accumulator of the checksum is
  \<open>32 word\<close> (\<^verbatim>\<open>unsigned\<close>), C++ \<^verbatim>\<open>int\<close> expressions are \<open>int\<close> (none of them leaves
  the range of a 32-bit \<^verbatim>\<open>int\<close>: the largest is \<open>65536 * 255 + 256 * 255 + 255\<close>), and a
  \<^verbatim>\<open>float\<close> is the real number it denotes, every operation rounded to binary32.
\<close>

subsection \<open>Data\<close>

type_synonym u8 = "8 word"
type_synonym u32 = "32 word"

text \<open>\<^verbatim>\<open>enum Sensor { VOLTAGE = 0, CURRENT = 1, POWER = 2, ENERGY = 3, TEST = 4 }\<close>\<close>

datatype Sensor = VOLTAGE | CURRENT | POWER | ENERGY | TEST

fun sensor_code :: "Sensor \<Rightarrow> int" where
  "sensor_code VOLTAGE = 0"
| "sensor_code CURRENT = 1"
| "sensor_code POWER = 2"
| "sensor_code ENERGY = 3"
| "sensor_code TEST = 4"

text \<open>\<^verbatim>\<open>static const std::array<uint8_t, 4> DEFAULT_ADDR = {{0xc0, 0xa8, 0x01, 0x01}}\<close>\<close>

definition DEFAULT_ADDR :: "u8 list" where
  "DEFAULT_ADDR = [0xc0, 0xa8, 0x01, 0x01]"

text \<open>
  \<^verbatim>\<open>Ensure\<close> throws \<^verbatim>\<open>std::runtime_error(msg)\<close>: the only error of the program is a
  runtime error carrying its message. \<open>Ensure cond msg rest\<close> is the statement
  \<^verbatim>\<open>Ensure(cond, msg);\<close> followed by the statements \<open>rest\<close>.
\<close>

datatype error = RuntimeError string

definition Ensure :: "bool \<Rightarrow> string \<Rightarrow> error + 'a \<Rightarrow> error + 'a" where
  "Ensure cond msg rest = (if cond then rest else Inl (RuntimeError msg))"

subsection \<open>Single-precision arithmetic\<close>

text \<open>
  \<^verbatim>\<open>Response::Get\<close> returns a \<^verbatim>\<open>float\<close>. A finite binary32 number is \<open>m * 2 ^ (e - 23)\<close>
  with \<open>\<bar>m\<bar> < 2 ^ 24\<close> and \<open>- 126 \<le> e \<le> 127\<close>; a conversion or an operation yields the
  representable number nearest to the exact result, ties going to the even significand.
  \<open>f32_exp x\<close> is the exponent of the binade of \<open>x\<close> (\<open>- 126\<close> for zero and the subnormal
  range), \<open>f32_round\<close> rounds at the spacing of that binade. Results of magnitude
  \<open>2 ^ 128\<close> and above (infinities) are outside this model; the decoder's operands are
  below \<open>2 ^ 17\<close>.
\<close>

definition round_even :: "real \<Rightarrow> int" where
  "round_even x =
     (let f = \<lfloor>x\<rfloor>; d = x - of_int f
      in if d < 1 / 2 then f
         else if 1 / 2 < d then f + 1
         else if even f then f else f + 1)"

fun f32_exp_from :: "nat \<Rightarrow> real \<Rightarrow> int" where
  "f32_exp_from 0 x = - 126"
| "f32_exp_from (Suc k) x =
     (if 2 powi (int k - 125) \<le> x then int k - 125 else f32_exp_from k x)"

definition f32_exp :: "real \<Rightarrow> int" where
  "f32_exp x = f32_exp_from 253 \<bar>x\<bar>"

definition f32_round :: "real \<Rightarrow> real" where
  "f32_round x =
     (let q = 2 powi (f32_exp x - 23)
      in of_int (round_even (x / q)) * q)"

text \<open>Conversion \<^verbatim>\<open>int\<close> to \<^verbatim>\<open>float\<close>, and \<^verbatim>\<open>+\<close> and \<^verbatim>\<open>/\<close> on \<^verbatim>\<open>float\<close>.\<close>

definition f32_of_int :: "int \<Rightarrow> real" where
  "f32_of_int n = f32_round (of_int n)"

definition f32_add :: "real \<Rightarrow> real \<Rightarrow> real" where
  "f32_add a b = f32_round (a + b)"

definition f32_div :: "real \<Rightarrow> real \<Rightarrow> real" where
  "f32_div a b = f32_round (a / b)"

subsection \<open>Packet, Request, Response\<close>

text \<open>
  \<^verbatim>\<open>std::array<uint8_t, 7> Body\<close> is a list of seven bytes. \<^verbatim>\<open>GetChecksum\<close> accumulates
  the first six bytes in an \<^verbatim>\<open>unsigned\<close> and casts the sum to \<^verbatim>\<open>uint8_t\<close>.
\<close>

definition GetChecksum :: "u8 list \<Rightarrow> u8" where
  "GetChecksum Body =
     ucast (foldl (\<lambda>acc b. acc + ucast b) (0 :: u32) (take 6 Body))"

text \<open>\<^verbatim>\<open>std::copy(first, last, out)\<close> into an array, \<open>pos\<close> the index of \<^verbatim>\<open>out\<close>.\<close>

fun copy_to :: "u8 list \<Rightarrow> nat \<Rightarrow> u8 list \<Rightarrow> u8 list" where
  "copy_to [] pos dst = dst"
| "copy_to (x # xs) pos dst = copy_to xs (Suc pos) (dst[pos := x])"

text \<open>
  The constructor \<^verbatim>\<open>Request(Sensor sens)\<close>: \<^verbatim>\<open>Body = {0}\<close>, then the type byte, the
  address and the checksum. The result is the body of the request.
\<close>

definition Request :: "Sensor \<Rightarrow> u8 list" where
  "Request sens =
     (let Body0 = replicate 7 (0 :: u8);
          Body1 = Body0[0 := word_of_int (0xb0 OR sensor_code sens)];
          Body2 = copy_to DEFAULT_ADDR 1 Body1
      in Body2[6 := GetChecksum Body2])"

text \<open>
  \<^verbatim>\<open>float Response::Get(Sensor sens) const\<close>. In the comparisons a byte is promoted to
  \<^verbatim>\<open>int\<close> (\<open>uint\<close>); the \<^verbatim>\<open>switch\<close> has one case for each of the five enumerators.
\<close>

definition Get :: "u8 list \<Rightarrow> Sensor \<Rightarrow> error + real" where
  "Get Body sens =
     Ensure (uint (Body ! 0) = (0xa0 OR sensor_code sens)) ''Invalid response type''
    (Ensure (Body ! 6 = GetChecksum Body) ''Invalid checksum''
    (case sens of
       VOLTAGE \<Rightarrow>
         Ensure (Body ! 4 = 0) ''VOLTAGE: Body[4]''
        (Ensure (Body ! 5 = 0) ''VOLTAGE: Body[5]''
        (Inr (f32_add (f32_of_int (256 * uint (Body ! 1) + uint (Body ! 2)))
                      (f32_div (f32_of_int (uint (Body ! 3))) (f32_of_int 10)))))
     | CURRENT \<Rightarrow>
         Ensure (Body ! 4 = 0) ''CURRENT: Body[4]''
        (Ensure (Body ! 5 = 0) ''CURRENT: Body[5]''
        (Inr (f32_add (f32_of_int (256 * uint (Body ! 1) + uint (Body ! 2)))
                      (f32_div (f32_of_int (uint (Body ! 3))) (f32_of_int 100)))))
     | POWER \<Rightarrow>
         Ensure (Body ! 3 = 0) ''POWER: Body[3]''
        (Ensure (Body ! 4 = 0) ''POWER: Body[4]''
        (Ensure (Body ! 5 = 0) ''POWER: Body[5]''
        (Inr (f32_of_int (256 * uint (Body ! 1) + uint (Body ! 2))))))
     | ENERGY \<Rightarrow>
         Ensure (Body ! 4 = 0) ''ENERGY: Body[4]''
        (Ensure (Body ! 5 = 0) ''ENERGY: Body[5]''
        (Inr (f32_of_int (65536 * uint (Body ! 1) + 256 * uint (Body ! 2) + uint (Body ! 3)))))
     | TEST \<Rightarrow>
         Ensure (Body ! 1 = 0) ''TEST: Body[1]''
        (Ensure (Body ! 2 = 0) ''TEST: Body[2]''
        (Ensure (Body ! 3 = 0) ''TEST: Body[3]''
        (Ensure (Body ! 4 = 0) ''TEST: Body[4]''
        (Ensure (Body ! 5 = 0) ''TEST: Body[5]''
        (Inr (f32_of_int 0))))))))"

subsection \<open>The errors by kind\<close>

text \<open>
  The three failures of \<^verbatim>\<open>Response::Get\<close> and the failure of \<^verbatim>\<open>Device::WaitResponse\<close>
  are told apart by their messages. \<open>MalformedField sens i\<close> is the message naming
  sensor \<open>sens\<close> and \<^verbatim>\<open>Body[i]\<close>; \<open>zero_bytes sens\<close> lists the indices that the case of
  \<open>sens\<close> compares with 0, in the order of the source.
\<close>

definition UnexpectedResponseType :: error where
  "UnexpectedResponseType = RuntimeError ''Invalid response type''"

definition ChecksumMismatch :: error where
  "ChecksumMismatch = RuntimeError ''Invalid checksum''"

definition TimeoutError :: error where
  "TimeoutError = RuntimeError ''Timeout while reading''"

fun sensor_name :: "Sensor \<Rightarrow> string" where
  "sensor_name VOLTAGE = ''VOLTAGE''"
| "sensor_name CURRENT = ''CURRENT''"
| "sensor_name POWER = ''POWER''"
| "sensor_name ENERGY = ''ENERGY''"
| "sensor_name TEST = ''TEST''"

definition MalformedField :: "Sensor \<Rightarrow> nat \<Rightarrow> error" where
  "MalformedField sens i =
     RuntimeError (sensor_name sens @ '': Body['' @ [''0123456789'' ! i] @ '']'')"

fun zero_bytes :: "Sensor \<Rightarrow> nat list" where
  "zero_bytes VOLTAGE = [4, 5]"
| "zero_bytes CURRENT = [4, 5]"
| "zero_bytes POWER = [3, 4, 5]"
| "zero_bytes ENERGY = [4, 5]"
| "zero_bytes TEST = [1, 2, 3, 4, 5]"

subsection \<open>Device\<close>

text \<open>
  \<^verbatim>\<open>Device::Get\<close> talks to the serial line through \<^verbatim>\<open>write\<close>, \<^verbatim>\<open>select\<close> and \<^verbatim>\<open>read\<close>.
  What the operating system answers is a parameter: a \<open>channel\<close> holds the return value
  of each call, the bytes \<^verbatim>\<open>read\<close> stored, and \<^verbatim>\<open>strerror(errno)\<close>. Each function returns
  the system calls it made, in order, with its result. \<^verbatim>\<open>sizeof(req)\<close> and
  \<^verbatim>\<open>sizeof(resp)\<close> are 7.
\<close>

record channel =
  write_result :: int
  select_result :: int
  fd_isset :: bool
  read_result :: int
  read_bytes :: "u8 list"
  strerror_errno :: string

datatype syscall = SysWrite "u8 list" | SysSelect int int | SysRead

definition CheckResult :: "channel \<Rightarrow> bool \<Rightarrow> string \<Rightarrow> error + 'a \<Rightarrow> error + 'a" where
  "CheckResult ch res op rest =
     Ensure res (''Failed to '' @ op @ '': '' @ strerror_errno ch) rest"

definition SendRequest :: "channel \<Rightarrow> Sensor \<Rightarrow> syscall list \<times> (error + unit)" where
  "SendRequest ch sens =
     (let req = Request sens
      in ([SysWrite req], CheckResult ch (write_result ch = 7) ''send request'' (Inr ())))"

text \<open>\<^verbatim>\<open>struct timeval timeout = {1, 0}\<close>: one second, zero microseconds.\<close>

definition WaitResponse :: "channel \<Rightarrow> syscall list \<times> (error + unit)" where
  "WaitResponse ch =
     ([SysSelect 1 0],
      Ensure (select_result ch > 0 \<and> fd_isset ch) ''Timeout while reading'' (Inr ()))"

definition ReadResponse :: "channel \<Rightarrow> Sensor \<Rightarrow> syscall list \<times> (error + real)" where
  "ReadResponse ch sens =
     ([SysRead],
      CheckResult ch (read_result ch = 7) ''read response'' (Get (read_bytes ch) sens))"

definition Device_Get :: "channel \<Rightarrow> Sensor \<Rightarrow> syscall list \<times> (error + real)" where
  "Device_Get ch sens =
     (case SendRequest ch sens of
        (t1, Inl e) \<Rightarrow> (t1, Inl e)
      | (t1, Inr _) \<Rightarrow>
          (case WaitResponse ch of
             (t2, Inl e) \<Rightarrow> (t1 @ t2, Inl e)
           | (t2, Inr _) \<Rightarrow>
               (case ReadResponse ch sens of
                  (t3, r) \<Rightarrow> (t1 @ t2 @ t3, r))))"

subsection \<open>The value table of the specification\<close>

text \<open>
  Section 4.1 of the specification gives the decoded value of each sensor as a formula in
  the payload bytes: \<^verbatim>\<open>256*B1 + B2 + B3/10.0\<close> for Voltage, \<^verbatim>\<open>256*B1 + B2 + B3/100.0\<close>
  for Current, \<^verbatim>\<open>256*B1 + B2\<close> for Power, \<^verbatim>\<open>65536*B1 + 256*B2 + B3\<close> for Energy and
  \<^verbatim>\<open>0\<close> for Test. \<open>spec_value\<close> follows the table, not the code: it is the number
  that the formula denotes, in arithmetic on the reals, with no rounding anywhere. It is
  what \<open>Get\<close> is compared with.
\<close>

fun spec_value :: "Sensor \<Rightarrow> int \<Rightarrow> int \<Rightarrow> int \<Rightarrow> real" where
  "spec_value VOLTAGE B1 B2 B3 = 256 * of_int B1 + of_int B2 + of_int B3 / 10"
| "spec_value CURRENT B1 B2 B3 = 256 * of_int B1 + of_int B2 + of_int B3 / 100"
| "spec_value POWER B1 B2 B3 = 256 * of_int B1 + of_int B2"
| "spec_value ENERGY B1 B2 B3 = 65536 * of_int B1 + 256 * of_int B2 + of_int B3"
| "spec_value TEST B1 B2 B3 = 0"

section \<open>Properties of the arithmetic\<close>

lemma round_even_of_int: "round_even (of_int m) = m"
  by (simp add: round_even_def)

lemma round_even_nonneg: "0 \<le> x \<Longrightarrow> 0 \<le> round_even x"
  by (simp add: round_even_def Let_def)

lemma round_even_error: "\<bar>of_int (round_even x) - x\<bar> \<le> 1 / 2"
proof -
  define d where "d = x - of_int \<lfloor>x\<rfloor>"
  have d: "0 \<le> d" "d < 1" unfolding d_def by linarith+
  have x: "x = of_int \<lfloor>x\<rfloor> + d" by (simp add: d_def)
  have "\<bar>of_int (round_even x) - (of_int \<lfloor>x\<rfloor> + d)\<bar> \<le> 1 / 2"
    using d unfolding round_even_def Let_def d_def [symmetric]
    by (auto simp: abs_if)
  with x show ?thesis by simp
qed

text \<open>The exponent found is that of the binade, unless the search ends at \<open>- 126\<close>.\<close>

lemma f32_exp_from_lower:
  "f32_exp_from k x = - 126 \<or> 2 powi (f32_exp_from k x) \<le> x"
  by (induction k) auto

lemma f32_exp_le:
  assumes "\<bar>x\<bar> < 2 powi (e + 1)" and "- 126 \<le> e"
  shows "f32_exp x \<le> e"
proof (rule ccontr)
  assume "\<not> f32_exp x \<le> e"
  then have gt: "e + 1 \<le> f32_exp x" by simp
  with assms(2) have "f32_exp x \<noteq> - 126" by simp
  with f32_exp_from_lower [of 253 "\<bar>x\<bar>"] have "2 powi (f32_exp x) \<le> \<bar>x\<bar>"
    by (simp add: f32_exp_def)
  moreover have "(2::real) powi (e + 1) \<le> 2 powi (f32_exp x)"
    using gt by (rule power_int_increasing) simp
  ultimately show False using assms(1) by simp
qed

text \<open>An integer whose binade has spacing at most 1 is representable: rounding keeps it.\<close>

lemma f32_round_grid:
  assumes "f32_exp (of_int n) \<le> 23"
  shows "f32_round (of_int n) = of_int n"
proof -
  define d where "d = nat (23 - f32_exp (of_int n))"
  have q: "(2::real) powi (f32_exp (of_int n) - 23) = 1 / 2 ^ d"
    using assms by (simp add: d_def power_int_def field_simps)
  have "real_of_int n / (1 / 2 ^ d) = of_int (n * 2 ^ d)"
    by simp
  then have "round_even (real_of_int n / (1 / 2 ^ d)) = n * 2 ^ d"
    by (simp only: round_even_of_int)
  then show ?thesis
    by (simp add: f32_round_def q)
qed

lemma f32_of_int_exact:
  assumes "\<bar>n\<bar> < 2 ^ 24"
  shows "f32_of_int n = of_int n"
proof -
  have "\<bar>real_of_int n\<bar> < 2 powi (23 + 1)"
  proof -
    have "real_of_int \<bar>n\<bar> < real_of_int (2 ^ 24)"
      using assms by (simp only: of_int_less_iff)
    then show ?thesis by simp
  qed
  then have "f32_exp (of_int n) \<le> 23" by (rule f32_exp_le) simp
  then show ?thesis unfolding f32_of_int_def by (rule f32_round_grid)
qed

lemma f32_round_nonneg: "0 \<le> x \<Longrightarrow> 0 \<le> f32_round x"
  by (simp add: f32_round_def Let_def round_even_nonneg)

text \<open>Rounding moves a number by at most half the spacing of its binade.\<close>

lemma f32_round_error: "\<bar>f32_round x - x\<bar> \<le> 2 powi (f32_exp x - 24)"
proof -
  define q :: real where "q = 2 powi (f32_exp x - 23)"
  have qpos: "0 < q" by (simp add: q_def)
  have "f32_round x - x = (of_int (round_even (x / q)) - x / q) * q"
    using qpos by (simp add: f32_round_def q_def Let_def field_simps)
  then have "\<bar>f32_round x - x\<bar> = \<bar>of_int (round_even (x / q)) - x / q\<bar> * q"
    using qpos by (simp add: abs_mult)
  also have "\<dots> \<le> (1 / 2) * q"
    using round_even_error [of "x / q"] qpos by (intro mult_right_mono) simp_all
  also have "\<dots> = 2 powi (f32_exp x - 24)"
    by (simp add: q_def power_int_diff)
  finally show ?thesis .
qed

section \<open>Properties of the checksum\<close>

lemma take_bit_add_right: "take_bit n (s + take_bit n b) = take_bit n (s + b)" for s b :: int
  using take_bit_add [of n s "take_bit n b"] take_bit_add [of n s b] by simp

lemma take_bit_add_left: "take_bit n (take_bit n s + b) = take_bit n (s + b)" for s b :: int
  using take_bit_add [of n "take_bit n s" b] take_bit_add [of n s b] by simp

lemma take_bit_add_wider:
  "m \<le> n \<Longrightarrow> take_bit m (take_bit n s + b) = take_bit m (s + b)" for s b :: int
  using take_bit_add_left [of m "take_bit n s" b] take_bit_add_left [of m s b]
  by (simp add: min_def)

text \<open>
  Casting the 32-bit accumulator down to a byte commutes with adding a byte, so the
  checksum is the sum of the first six bytes in 8-bit arithmetic.
\<close>

lemma ucast_acc_add: "(ucast (s + ucast b :: u32) :: u8) = ucast s + b"
  by transfer (simp add: take_bit_add_right take_bit_add_wider)

lemma checksum_fold:
  "(ucast (foldl (\<lambda>acc b. acc + ucast b) (s :: u32) xs) :: u8) = ucast s + sum_list xs"
  by (induction xs arbitrary: s) (simp_all add: ucast_acc_add add.assoc)

lemma GetChecksum_sum: "GetChecksum Body = sum_list (take 6 Body)"
  by (simp add: GetChecksum_def checksum_fold)

lemma sum_list_update_word:
  fixes xs :: "u8 list"
  shows "i < length xs \<Longrightarrow> sum_list (xs[i := v]) = sum_list xs - xs ! i + v"
  by (induction xs arbitrary: i) (auto split: nat.splits)

lemma GetChecksum_update:
  assumes "length Body = 7" and "i < 6"
  shows "GetChecksum (Body[i := v]) = GetChecksum Body - Body ! i + v"
  using assms by (simp add: GetChecksum_sum take_update_swap sum_list_update_word)

lemma GetChecksum_mutated:
  assumes "length Body = 7" and "i < 6" and "v \<noteq> Body ! i"
  shows "GetChecksum (Body[i := v]) \<noteq> GetChecksum Body"
  using assms by (simp add: GetChecksum_update)

lemma length7:
  assumes "length Body = 7"
  obtains b0 b1 b2 b3 b4 b5 b6 :: u8 where "Body = [b0, b1, b2, b3, b4, b5, b6]"
  using assms by (auto simp: length_Suc_conv eval_nat_numeral)

section \<open>Evaluating the arithmetic\<close>

lemma f32_exp_from_upper:
  assumes "2 powi e \<le> x" and "- 126 \<le> e" and "e \<le> int k - 126"
  shows "e \<le> f32_exp_from k x"
  using assms
proof (induction k)
  case 0
  then show ?case by simp
next
  case (Suc k)
  show ?case
  proof (cases "2 powi (int k - 125) \<le> x")
    case True
    with Suc.prems show ?thesis by simp
  next
    case False
    with Suc.prems(1) have "(2::real) powi e < 2 powi (int k - 125)" by simp
    then have "e < int k - 125"
      using power_int_increasing [of "int k - 125" e "2::real"]
      by (cases "e < int k - 125") auto
    with Suc.IH Suc.prems False show ?thesis by simp
  qed
qed

text \<open>In the normal range the exponent found is the one of the binade of \<open>x\<close>.\<close>

lemma f32_exp_eq:
  assumes "- 126 \<le> e" and "e \<le> 127" and "2 powi e \<le> \<bar>x\<bar>" and "\<bar>x\<bar> < 2 powi (e + 1)"
  shows "f32_exp x = e"
proof (rule antisym)
  show "f32_exp x \<le> e" using assms(4,1) by (rule f32_exp_le)
  show "e \<le> f32_exp x"
    unfolding f32_exp_def using assms(3,1) by (rule f32_exp_from_upper) (use assms(2) in simp)
qed

lemma f32_round_eval:
  assumes "- 126 \<le> e" and "e \<le> 127" and "2 powi e \<le> \<bar>x\<bar>" and "\<bar>x\<bar> < 2 powi (e + 1)"
  shows "f32_round x = of_int (round_even (x / 2 powi (e - 23))) * 2 powi (e - 23)"
  by (simp add: f32_round_def Let_def f32_exp_eq [OF assms])

text \<open>
  One tenth is not a binary32 number: \<^verbatim>\<open>float(1) / 10\<close> is \<open>13421773 / 2 ^ 27\<close>, a little
  above it. Nor is 0.18; and rounding it before the sum, as the code does, gives for
  \<open>1 + 0.18\<close> the neighbour of the binary32 number nearest to 1.18.
\<close>

lemma f32_round_1_10: "f32_round (1 / 10) = 13421773 / 134217728"
  using f32_round_eval [of "- 4" "1 / 10"]
  by (simp add: round_even_def Let_def)

lemma f32_round_tenth: "f32_round (13421773 / 134217728) = 13421773 / 134217728"
  using f32_round_eval [of "- 4" "13421773 / 134217728"]
  by (simp add: round_even_def Let_def)

lemma f32_round_230_1: "f32_round (30883499213 / 134217728) = 7539917 / 32768"
  using f32_round_eval [of 7 "30883499213 / 134217728"]
  by (simp add: round_even_def Let_def)

lemma f32_round_9_50: "f32_round (9 / 50) = 3019899 / 16777216"
  using f32_round_eval [of "- 3" "9 / 50"]
  by (simp add: round_even_def Let_def)

lemma f32_round_1_18: "f32_round (19797115 / 16777216) = 4949279 / 4194304"
  using f32_round_eval [of 0 "19797115 / 16777216"]
  by (simp add: round_even_def Let_def)

lemma f32_round_59_50: "f32_round (59 / 50) = 9898557 / 8388608"
  using f32_round_eval [of 0 "59 / 50"]
  by (simp add: round_even_def Let_def)

text \<open>
  A number \<open>m / 2 ^ j\<close> with \<open>\<bar>m\<bar> < 2 ^ 24\<close> is a binary32 number: rounding keeps it.
\<close>

lemma f32_round_dyadic:
  assumes "\<bar>m\<bar> < 2 ^ 24" and "j \<le> 149"
  shows "f32_round (of_int m / 2 ^ j) = of_int m / 2 ^ j"
proof -
  define x where "x = real_of_int m / 2 ^ j"
  have "\<bar>real_of_int m\<bar> < 2 ^ 24"
  proof -
    have "real_of_int \<bar>m\<bar> < real_of_int (2 ^ 24)"
      using assms(1) by (simp only: of_int_less_iff)
    then show ?thesis by simp
  qed
  then have "\<bar>x\<bar> < 2 ^ 24 / 2 ^ j"
    by (simp add: x_def divide_strict_right_mono)
  also have "(2::real) ^ 24 / 2 ^ j = 2 powi (23 - int j + 1)"
    by (simp add: power_int_diff)
  finally have "f32_exp x \<le> 23 - int j"
    by (rule f32_exp_le) (use assms(2) in simp)
  define d where "d = nat (23 - int j - f32_exp x)"
  have eq: "f32_exp x - 23 = - int (d + j)"
    using \<open>f32_exp x \<le> 23 - int j\<close> by (simp add: d_def)
  have q: "(2::real) powi (f32_exp x - 23) = 1 / 2 ^ (d + j)"
    unfolding eq by (simp add: power_int_minus divide_inverse del: of_nat_add)
  have "x / (1 / 2 ^ (d + j)) = of_int (m * 2 ^ d)"
    by (simp add: x_def power_add)
  then have r: "round_even (x / (1 / 2 ^ (d + j))) = m * 2 ^ d"
    by (simp only: round_even_of_int)
  have "f32_round x = of_int (m * 2 ^ d) * (1 / 2 ^ (d + j))"
    by (simp only: f32_round_def Let_def q r)
  also have "\<dots> = x"
    by (simp add: x_def power_add)
  finally show ?thesis by (simp only: x_def)
qed

text \<open>The integers that \<open>Get\<close> converts to \<^verbatim>\<open>float\<close> are all below \<open>2 ^ 24\<close>.\<close>

lemma uint_u8_bound: "0 \<le> uint b \<and> uint b < 256" for b :: u8
  using uint_bounded [of b] by simp

lemma f32_of_int_byte: "f32_of_int (uint b) = of_int (uint b)" for b :: u8
  using uint_u8_bound [of b] by (intro f32_of_int_exact) simp

lemma f32_of_int_two_bytes:
  "f32_of_int (256 * uint b1 + uint b2) = of_int (256 * uint b1 + uint b2)" for b1 b2 :: u8
  using uint_u8_bound [of b1] uint_u8_bound [of b2] by (intro f32_of_int_exact) simp

lemma f32_of_int_three_bytes:
  "f32_of_int (65536 * uint b1 + 256 * uint b2 + uint b3) =
     of_int (65536 * uint b1 + 256 * uint b2 + uint b3)" for b1 b2 b3 :: u8
  using uint_u8_bound [of b1] uint_u8_bound [of b2] uint_u8_bound [of b3]
  by (intro f32_of_int_exact) simp

lemma f32_of_int_consts: "f32_of_int 0 = 0" "f32_of_int 10 = 10" "f32_of_int 100 = 100"
  using f32_of_int_exact [of 0] f32_of_int_exact [of 10] f32_of_int_exact [of 100] by simp_all

lemmas f32_of_int_simps =
  f32_of_int_byte f32_of_int_two_bytes f32_of_int_three_bytes f32_of_int_consts

section \<open>Properties of the codec\<close>

lemma Request_bytes:
  "Request sens =
     [word_of_int (0xb0 OR sensor_code sens), 0xc0, 0xa8, 0x01, 0x01, 0x00,
      word_of_int (0xb0 OR sensor_code sens) + 0xc0 + 0xa8 + 0x01 + 0x01 + 0x00]"
  by (simp add: Request_def Let_def DEFAULT_ADDR_def GetChecksum_sum eval_nat_numeral)

lemma Request_cases:
  "Request VOLTAGE = [0xB0, 0xC0, 0xA8, 1, 1, 0, 0x1A]"
  "Request CURRENT = [0xB1, 0xC0, 0xA8, 1, 1, 0, 0x1B]"
  "Request POWER = [0xB2, 0xC0, 0xA8, 1, 1, 0, 0x1C]"
  "Request ENERGY = [0xB3, 0xC0, 0xA8, 1, 1, 0, 0x1D]"
  "Request TEST = [0xB4, 0xC0, 0xA8, 1, 1, 0, 0x1E]"
  by (simp_all add: Request_bytes)

text \<open>
  Rounding the quotient \<open>B3 / c\<close> and then the sum, as \<open>Get\<close> does for Voltage and
  Current, stays within \<open>2 ^ - 8 + 2 ^ - 20\<close> of the unrounded sum: the quotient is below
  32 and the sum below \<open>2 ^ 17\<close>.
\<close>

lemma f32_round_error_le:
  assumes "\<bar>x\<bar> < 2 powi (e + 1)" and "- 126 \<le> e"
  shows "\<bar>f32_round x - x\<bar> \<le> 2 powi (e - 24)"
proof -
  have "f32_exp x \<le> e" using assms by (rule f32_exp_le)
  then have "(2::real) powi (f32_exp x - 24) \<le> 2 powi (e - 24)"
    by (intro power_int_increasing) simp_all
  with f32_round_error [of x] show ?thesis by linarith
qed

lemma two_round_accuracy:
  assumes "0 \<le> n" and "n \<le> 65535" and "0 \<le> B3" and "B3 < 256" and "10 \<le> c"
  shows "\<bar>f32_round (of_int n + f32_round (of_int B3 / c)) - (of_int n + of_int B3 / c)\<bar>
           \<le> 1 / 256 + 1 / 1048576"
proof -
  define r where "r = real_of_int B3 / c"
  define d where "d = f32_round (of_int B3 / c)"
  have r: "0 \<le> r" "r < 32"
  proof -
    show "0 \<le> r" using assms by (simp add: r_def)
    have "real_of_int B3 < 256" using assms(4) by simp
    then have "real_of_int B3 < 32 * c" using assms(5) by linarith
    then show "r < 32" using assms(5) by (simp add: r_def field_simps)
  qed
  have "\<bar>f32_round r - r\<bar> \<le> 2 powi (4 - 24)"
    using r by (intro f32_round_error_le) simp_all
  then have e1: "\<bar>d - r\<bar> \<le> 1 / 1048576"
    by (simp add: d_def r_def)
  have n: "0 \<le> real_of_int n" "real_of_int n \<le> 65535"
    using assms(1,2) by simp_all
  have "\<bar>real_of_int n + d\<bar> < 2 powi (16 + 1)"
  proof -
    from e1 r have "\<bar>d\<bar> < 33" by linarith
    with n have "\<bar>real_of_int n + d\<bar> < 131072" by linarith
    then show ?thesis by simp
  qed
  then have "\<bar>f32_round (real_of_int n + d) - (real_of_int n + d)\<bar> \<le> 2 powi (16 - 24)"
    by (rule f32_round_error_le) simp
  then have e2: "\<bar>f32_round (real_of_int n + d) - (real_of_int n + d)\<bar> \<le> 1 / 256"
    by simp
  from e1 e2 have "\<bar>f32_round (real_of_int n + d) - (real_of_int n + r)\<bar> \<le> 1 / 256 + 1 / 1048576"
    by linarith
  then show ?thesis by (simp add: d_def r_def)
qed

text \<open>When the quotient is a number of halves or quarters, neither rounding changes anything.\<close>

lemma two_round_exact:
  assumes "0 \<le> n" and "n \<le> 65535" and "0 \<le> k" and "k < 256" and "j \<le> 2"
  shows "f32_round (of_int n + f32_round (of_int k / 2 ^ j)) = of_int n + of_int k / 2 ^ j"
proof -
  have a: "f32_round (real_of_int k / 2 ^ j) = of_int k / 2 ^ j"
    by (rule f32_round_dyadic) (use assms in simp_all)
  have p: "(2::int) ^ j \<le> 4"
    using power_increasing [of j 2 "2::int"] assms(5) by simp
  have "n * 2 ^ j \<le> 65535 * 4"
    using assms(1,2) p by (intro mult_mono) simp_all
  then have "\<bar>n * 2 ^ j + k\<bar> < 2 ^ 24"
    using assms(1,3,4) by simp
  then have "f32_round (real_of_int (n * 2 ^ j + k) / 2 ^ j) = of_int (n * 2 ^ j + k) / 2 ^ j"
    by (rule f32_round_dyadic) (use assms(5) in simp)
  moreover have "real_of_int (n * 2 ^ j + k) / 2 ^ j = of_int n + of_int k / 2 ^ j"
    by (simp add: field_simps)
  ultimately show ?thesis by (simp only: a)
qed

text \<open>
  What \<open>Get\<close> returns on a response that passes every check: the integers of Power,
  Energy and Test, and for Voltage and Current the sum rounded after the rounded quotient.
\<close>

lemma Get_pass:
  assumes "length Body = 7"
    and "uint (Body ! 0) = (0xA0 OR sensor_code sens)"
    and "Body ! 6 = GetChecksum Body"
    and "\<forall>i \<in> set (zero_bytes sens). Body ! i = 0"
  shows "Get Body sens =
    Inr (case sens of
           VOLTAGE \<Rightarrow> f32_round (of_int (256 * uint (Body ! 1) + uint (Body ! 2))
                                   + f32_round (of_int (uint (Body ! 3)) / 10))
         | CURRENT \<Rightarrow> f32_round (of_int (256 * uint (Body ! 1) + uint (Body ! 2))
                                   + f32_round (of_int (uint (Body ! 3)) / 100))
         | POWER \<Rightarrow> of_int (256 * uint (Body ! 1) + uint (Body ! 2))
         | ENERGY \<Rightarrow> of_int (65536 * uint (Body ! 1) + 256 * uint (Body ! 2) + uint (Body ! 3))
         | TEST \<Rightarrow> 0)"
  using assms(2-)
  by (cases sens) (simp_all add: Get_def Ensure_def f32_of_int_simps f32_add_def f32_div_def)

text \<open>Conversely, \<open>Get\<close> returns a value only if every check passes.\<close>

lemma Get_success:
  assumes "Get Body sens = Inr v"
  shows "uint (Body ! 0) = (0xA0 OR sensor_code sens) \<and> Body ! 6 = GetChecksum Body
         \<and> (\<forall>i \<in> set (zero_bytes sens). Body ! i = 0)"
  using assms
  by (cases sens) (auto simp add: Get_def Ensure_def split: if_splits)

text \<open>
  The value returned and the value of the table: equal for Power, Energy and Test, and
  for Voltage and Current when \<open>B3\<close> is a multiple of 5 and of 25; never further apart
  than \<open>2 ^ - 8 + 2 ^ - 20\<close>.
\<close>

lemma Get_pass_spec:
  assumes "length Body = 7"
    and "uint (Body ! 0) = (0xA0 OR sensor_code sens)"
    and "Body ! 6 = GetChecksum Body"
    and "\<forall>i \<in> set (zero_bytes sens). Body ! i = 0"
    and "B1 = uint (Body ! 1)" and "B2 = uint (Body ! 2)" and "B3 = uint (Body ! 3)"
  shows "\<exists>v. Get Body sens = Inr v
     \<and> \<bar>v - spec_value sens B1 B2 B3\<bar> \<le> 1 / 256 + 1 / 1048576
     \<and> (sens = POWER \<or> sens = ENERGY \<or> sens = TEST \<longrightarrow> v = spec_value sens B1 B2 B3)
     \<and> (sens = VOLTAGE \<longrightarrow>
          v = f32_round (of_int (256 * B1 + B2) + f32_round (of_int B3 / 10))
          \<and> (5 dvd B3 \<longrightarrow> v = spec_value sens B1 B2 B3))
     \<and> (sens = CURRENT \<longrightarrow>
          v = f32_round (of_int (256 * B1 + B2) + f32_round (of_int B3 / 100))
          \<and> (25 dvd B3 \<longrightarrow> v = spec_value sens B1 B2 B3))"
proof -
  have b: "0 \<le> B1 \<and> B1 < 256" "0 \<le> B2 \<and> B2 < 256" "0 \<le> B3 \<and> B3 < 256"
    unfolding assms(5-7) by (rule uint_u8_bound)+
  then have n: "0 \<le> 256 * B1 + B2" "256 * B1 + B2 \<le> 65535" by simp_all
  note g = Get_pass [OF assms(1-4), folded assms(5-7)]
  show ?thesis
  proof (cases sens)
    case VOLTAGE
    have acc: "\<bar>f32_round (of_int (256 * B1 + B2) + f32_round (of_int B3 / 10))
        - spec_value VOLTAGE B1 B2 B3\<bar> \<le> 1 / 256 + 1 / 1048576"
      using two_round_accuracy [OF n, of B3 10] b by simp
    have ex: "f32_round (of_int (256 * B1 + B2) + f32_round (of_int B3 / 10))
        = spec_value VOLTAGE B1 B2 B3" if "5 dvd B3"
    proof -
      from that obtain k where k: "B3 = 5 * k" by (auto simp: dvd_def)
      with b have "0 \<le> k" "k < 256" by simp_all
      from two_round_exact [OF n this, of 1] show ?thesis by (simp add: k)
    qed
    from g acc ex show ?thesis by (simp add: VOLTAGE)
  next
    case CURRENT
    have acc: "\<bar>f32_round (of_int (256 * B1 + B2) + f32_round (of_int B3 / 100))
        - spec_value CURRENT B1 B2 B3\<bar> \<le> 1 / 256 + 1 / 1048576"
      using two_round_accuracy [OF n, of B3 100] b by simp
    have ex: "f32_round (of_int (256 * B1 + B2) + f32_round (of_int B3 / 100))
        = spec_value CURRENT B1 B2 B3" if "25 dvd B3"
    proof -
      from that obtain k where k: "B3 = 25 * k" by (auto simp: dvd_def)
      with b have "0 \<le> k" "k < 256" by simp_all
      from two_round_exact [OF n this, of 2] show ?thesis by (simp add: k)
    qed
    from g acc ex show ?thesis by (simp add: CURRENT)
  next
    case POWER
    with g show ?thesis by simp
  next
    case ENERGY
    with g show ?thesis by simp
  next
    case TEST
    with g show ?thesis by simp
  qed
qed

text \<open>
  The messages tell the failures apart: a malformed-field message determines the sensor
  and the byte, and is neither of the other two messages.
\<close>

lemma MalformedField_inject:
  assumes "MalformedField sens i = MalformedField sens' i'"
    and "i \<in> set (zero_bytes sens)" and "i' \<in> set (zero_bytes sens')"
  shows "sens = sens' \<and> i = i'"
  using assms by (cases sens; cases sens') (auto simp add: MalformedField_def)

lemma error_kinds_distinct:
  "UnexpectedResponseType \<noteq> ChecksumMismatch"
  "i \<in> set (zero_bytes sens) \<Longrightarrow> MalformedField sens i \<noteq> UnexpectedResponseType"
  "i \<in> set (zero_bytes sens) \<Longrightarrow> MalformedField sens i \<noteq> ChecksumMismatch"
  by (cases sens; auto simp add: MalformedField_def UnexpectedResponseType_def ChecksumMismatch_def)+

section \<open>The claims\<close>

text \<open>
  C1, as amended. For each of the five sensors, a 7-byte response that passes the check
  of the type byte, the check of the checksum and the sensor's checks of the bytes that
  must be zero decodes to a value. For Power, Energy and Test it is exactly the value of
  the table, \<open>256*B1 + B2\<close>, \<open>65536*B1 + 256*B2 + B3\<close> and 0. For Voltage and Current it
  is the formula of the table computed in single precision: \<open>B3/10\<close> (\<open>B3/100\<close>) rounded
  to the nearest binary32 number, added to \<open>256*B1 + B2\<close> and rounded again. That
  value is within \<open>2 ^ - 8 + 2 ^ - 20\<close> of the value of the table, and is the value of the
  table when \<open>B3\<close> is a multiple of 5 (of 25). The Voltage bytes A0 00 E6 05 00 00 with
  their checksum decode to 230.5, the Energy bytes A3 00 01 2C 00 00 with their checksum
  to 300.
\<close>

theorem C1_decode_amended:
  "(length Body = 7
      \<and> uint (Body ! 0) = (0xA0 OR sensor_code sens)
      \<and> Body ! 6 = GetChecksum Body
      \<and> (\<forall>i \<in> set (zero_bytes sens). Body ! i = 0)
      \<and> B1 = uint (Body ! 1) \<and> B2 = uint (Body ! 2) \<and> B3 = uint (Body ! 3)
    \<longrightarrow> (\<exists>v. Get Body sens = Inr v
          \<and> \<bar>v - spec_value sens B1 B2 B3\<bar> \<le> 1 / 256 + 1 / 1048576
          \<and> (sens = POWER \<or> sens = ENERGY \<or> sens = TEST \<longrightarrow> v = spec_value sens B1 B2 B3)
          \<and> (sens = VOLTAGE \<longrightarrow>
               v = f32_round (of_int (256 * B1 + B2) + f32_round (of_int B3 / 10))
               \<and> (5 dvd B3 \<longrightarrow> v = spec_value sens B1 B2 B3))
          \<and> (sens = CURRENT \<longrightarrow>
               v = f32_round (of_int (256 * B1 + B2) + f32_round (of_int B3 / 100))
               \<and> (25 dvd B3 \<longrightarrow> v = spec_value sens B1 B2 B3))))
   \<and> Get [0xA0, 0x00, 0xE6, 0x05, 0x00, 0x00,
           GetChecksum [0xA0, 0x00, 0xE6, 0x05, 0x00, 0x00]] VOLTAGE = Inr 230.5
   \<and> Get [0xA3, 0x00, 0x01, 0x2C, 0x00, 0x00,
           GetChecksum [0xA3, 0x00, 0x01, 0x2C, 0x00, 0x00]] ENERGY = Inr 300"
proof (intro conjI impI)
  assume h: "length Body = 7
      \<and> uint (Body ! 0) = (0xA0 OR sensor_code sens)
      \<and> Body ! 6 = GetChecksum Body
      \<and> (\<forall>i \<in> set (zero_bytes sens). Body ! i = 0)
      \<and> B1 = uint (Body ! 1) \<and> B2 = uint (Body ! 2) \<and> B3 = uint (Body ! 3)"
  then have len: "length Body = 7"
    and ty: "uint (Body ! 0) = (0xA0 OR sensor_code sens)"
    and ck: "Body ! 6 = GetChecksum Body"
    and z: "\<forall>i \<in> set (zero_bytes sens). Body ! i = 0"
    and p: "B1 = uint (Body ! 1)" "B2 = uint (Body ! 2)" "B3 = uint (Body ! 3)"
    by blast+
  show "\<exists>v. Get Body sens = Inr v
          \<and> \<bar>v - spec_value sens B1 B2 B3\<bar> \<le> 1 / 256 + 1 / 1048576
          \<and> (sens = POWER \<or> sens = ENERGY \<or> sens = TEST \<longrightarrow> v = spec_value sens B1 B2 B3)
          \<and> (sens = VOLTAGE \<longrightarrow>
               v = f32_round (of_int (256 * B1 + B2) + f32_round (of_int B3 / 10))
               \<and> (5 dvd B3 \<longrightarrow> v = spec_value sens B1 B2 B3))
          \<and> (sens = CURRENT \<longrightarrow>
               v = f32_round (of_int (256 * B1 + B2) + f32_round (of_int B3 / 100))
               \<and> (25 dvd B3 \<longrightarrow> v = spec_value sens B1 B2 B3))"
    by (rule Get_pass_spec [OF len ty ck z p])
next
  have v: "f32_round (230 + f32_round (1 / 2)) = 461 / 2"
    using two_round_exact [of 230 1 1] by simp
  show "Get [0xA0, 0x00, 0xE6, 0x05, 0x00, 0x00,
           GetChecksum [0xA0, 0x00, 0xE6, 0x05, 0x00, 0x00]] VOLTAGE = Inr 230.5"
    using v by (simp add: Get_pass GetChecksum_sum)
next
  show "Get [0xA3, 0x00, 0x01, 0x2C, 0x00, 0x00,
           GetChecksum [0xA3, 0x00, 0x01, 0x2C, 0x00, 0x00]] ENERGY = Inr 300"
    by (simp add: Get_pass GetChecksum_sum)
qed

text \<open>
  At the Current response A1 00 01 12 00 00 B4 every check passes; the value is
  \<open>4949279 / 2 ^ 22\<close>, close to the 1.18 of the table. At the Voltage response
  A0 00 E6 05 00 00 8B, where \<open>B3\<close> is 5, the value is the 230.5 of the table.
\<close>

theorem C1_witness:
  "length [0xA1, 0x00, 0x01, 0x12, 0x00, 0x00, 0xB4 :: u8] = 7
   \<and> uint ([0xA1, 0x00, 0x01, 0x12, 0x00, 0x00, 0xB4 :: u8] ! 0) = (0xA0 OR sensor_code CURRENT)
   \<and> [0xA1, 0x00, 0x01, 0x12, 0x00, 0x00, 0xB4 :: u8] ! 6
       = GetChecksum [0xA1, 0x00, 0x01, 0x12, 0x00, 0x00, 0xB4]
   \<and> zero_bytes CURRENT = [4, 5]
   \<and> [0xA1, 0x00, 0x01, 0x12, 0x00, 0x00, 0xB4 :: u8] ! 4 = 0
   \<and> [0xA1, 0x00, 0x01, 0x12, 0x00, 0x00, 0xB4 :: u8] ! 5 = 0
   \<and> Get [0xA1, 0x00, 0x01, 0x12, 0x00, 0x00, 0xB4] CURRENT = Inr (4949279 / 4194304)
   \<and> spec_value CURRENT 0 1 18 = 118 / 100
   \<and> \<bar>4949279 / 4194304 - spec_value CURRENT 0 1 18\<bar> \<le> 1 / 256 + 1 / 1048576
   \<and> (5 :: int) dvd 5
   \<and> Get [0xA0, 0x00, 0xE6, 0x05, 0x00, 0x00, 0x8B] VOLTAGE = Inr (spec_value VOLTAGE 0 230 5)"
proof -
  have c: "Get [0xA1, 0x00, 0x01, 0x12, 0x00, 0x00, 0xB4] CURRENT = Inr (4949279 / 4194304)"
    by (simp add: Get_pass GetChecksum_sum f32_round_9_50 f32_round_1_18)
  show ?thesis
    using C1_decode_amended [of "[0xA1, 0x00, 0x01, 0x12, 0x00, 0x00, 0xB4]" CURRENT 0 1 18]
      C1_decode_amended [of "[0xA0, 0x00, 0xE6, 0x05, 0x00, 0x00, 0x8B]" VOLTAGE 0 230 5] c
    by (simp add: GetChecksum_sum)
qed

text \<open>
  C1 as written fails for Voltage and Current. The Voltage response A0 00 00 01 00 00 A1
  passes every check and decodes to \<open>13421773 / 2 ^ 27\<close>, not to the \<open>1 / 10\<close> of the
  table. The Current response A1 00 01 12 00 00 B4 decodes to \<open>4949279 / 2 ^ 22\<close>, which
  is neither the 1.18 of the table nor the binary32 number nearest to it,
  \<open>9898557 / 2 ^ 23\<close>.
\<close>

theorem C1_counterexample:
  "length [0xA0, 0x00, 0x00, 0x01, 0x00, 0x00, 0xA1 :: u8] = 7
   \<and> uint ([0xA0, 0x00, 0x00, 0x01, 0x00, 0x00, 0xA1 :: u8] ! 0) = (0xA0 OR sensor_code VOLTAGE)
   \<and> [0xA0, 0x00, 0x00, 0x01, 0x00, 0x00, 0xA1 :: u8] ! 6
       = GetChecksum [0xA0, 0x00, 0x00, 0x01, 0x00, 0x00, 0xA1]
   \<and> [0xA0, 0x00, 0x00, 0x01, 0x00, 0x00, 0xA1 :: u8] ! 4 = 0
   \<and> [0xA0, 0x00, 0x00, 0x01, 0x00, 0x00, 0xA1 :: u8] ! 5 = 0
   \<and> Get [0xA0, 0x00, 0x00, 0x01, 0x00, 0x00, 0xA1] VOLTAGE = Inr (13421773 / 134217728)
   \<and> spec_value VOLTAGE 0 0 1 = 1 / 10
   \<and> Get [0xA0, 0x00, 0x00, 0x01, 0x00, 0x00, 0xA1] VOLTAGE \<noteq> Inr (spec_value VOLTAGE 0 0 1)
   \<and> Get [0xA1, 0x00, 0x01, 0x12, 0x00, 0x00, 0xB4] CURRENT = Inr (4949279 / 4194304)
   \<and> spec_value CURRENT 0 1 18 = 118 / 100
   \<and> Get [0xA1, 0x00, 0x01, 0x12, 0x00, 0x00, 0xB4] CURRENT \<noteq> Inr (spec_value CURRENT 0 1 18)
   \<and> f32_round (spec_value CURRENT 0 1 18) = 9898557 / 8388608
   \<and> Get [0xA1, 0x00, 0x01, 0x12, 0x00, 0x00, 0xB4] CURRENT
       \<noteq> Inr (f32_round (spec_value CURRENT 0 1 18))"
proof -
  have v: "Get [0xA0, 0x00, 0x00, 0x01, 0x00, 0x00, 0xA1] VOLTAGE = Inr (13421773 / 134217728)"
    by (simp add: Get_pass GetChecksum_sum f32_round_1_10 f32_round_tenth)
  have c: "Get [0xA1, 0x00, 0x01, 0x12, 0x00, 0x00, 0xB4] CURRENT = Inr (4949279 / 4194304)"
    by (simp add: Get_pass GetChecksum_sum f32_round_9_50 f32_round_1_18)
  have n: "f32_round (spec_value CURRENT 0 1 18) = 9898557 / 8388608"
    by (simp add: f32_round_59_50)
  show ?thesis
    unfolding v c n by (simp add: GetChecksum_sum)
qed

text \<open>
  C2. For each of the five sensors the request is the seven bytes
  \<open>0xB0 | code\<close>, C0, A8, 01, 01, 00 and the checksum: byte 5 is 0 and byte 6 is the sum
  of bytes 0 to 5 modulo 256. The constructor has no failing branch.
\<close>

theorem C2_encode_request:
  "Request sens =
     [word_of_int (0xB0 OR sensor_code sens), 0xC0, 0xA8, 0x01, 0x01, 0x00,
      GetChecksum (Request sens)]
   \<and> Request sens ! 5 = 0
   \<and> uint (Request sens ! 6) = sum_list (map uint (take 6 (Request sens))) mod 256"
  by (cases sens) (simp_all add: Request_cases GetChecksum_sum)

text \<open>
  C3, as amended. Take a 7-byte array whose byte 6 is the checksum of its bytes 0 to 5,
  an index \<open>i\<close> from 0 to 5 and a value different from byte \<open>i\<close>. The array with byte
  \<open>i\<close> replaced and byte 6 unchanged no longer carries its checksum: decoding it for a
  sensor fails with the checksum error when its byte 0 is the type byte of that sensor,
  and with the response-type error, raised by the earlier check, when it is not. It never
  decodes to a value.
\<close>

theorem C3_mutation_amended:
  assumes "length Body = 7" and "Body ! 6 = GetChecksum Body" and "i < 6" and "v \<noteq> Body ! i"
  shows "Get (Body[i := v]) sens =
           (if uint (Body[i := v] ! 0) = (0xA0 OR sensor_code sens)
            then Inl ChecksumMismatch else Inl UnexpectedResponseType)"
proof -
  have "GetChecksum (Body[i := v]) \<noteq> GetChecksum Body"
    using assms(1,3,4) by (rule GetChecksum_mutated)
  moreover have "Body[i := v] ! 6 = Body ! 6"
    using assms(3) by simp
  ultimately have "Body[i := v] ! 6 \<noteq> GetChecksum (Body[i := v])"
    using assms(2) by simp
  then show ?thesis
    by (simp add: Get_def Ensure_def ChecksumMismatch_def UnexpectedResponseType_def)
qed

theorem C3_witness:
  "length [0xA0, 0x00, 0xE6, 0x05, 0x00, 0x00, 0x8B :: u8] = 7
   \<and> [0xA0, 0x00, 0xE6, 0x05, 0x00, 0x00, 0x8B :: u8] ! 6
       = GetChecksum [0xA0, 0x00, 0xE6, 0x05, 0x00, 0x00, 0x8B]
   \<and> (2 :: nat) < 6
   \<and> (0xE7 :: u8) \<noteq> [0xA0, 0x00, 0xE6, 0x05, 0x00, 0x00, 0x8B] ! 2
   \<and> Get ([0xA0, 0x00, 0xE6, 0x05, 0x00, 0x00, 0x8B][2 := 0xE7]) VOLTAGE = Inl ChecksumMismatch"
  using C3_mutation_amended [of "[0xA0, 0x00, 0xE6, 0x05, 0x00, 0x00, 0x8B]" 2 "0xE7" VOLTAGE]
  by (simp add: GetChecksum_sum)

text \<open>
  C3 as written fails twice. The array A0 00 00 00 00 00 A0 is a valid Voltage response;
  with byte 0 replaced by 00 it fails the check of the type byte, which comes first, and
  the error is the response-type error. The array A2 00 00 00 00 00 A3 does not carry its
  checksum; with byte 1 replaced by 01 it does, and decodes to the Power value 256.
\<close>

theorem C3_counterexample:
  "length [0xA0, 0x00, 0x00, 0x00, 0x00, 0x00, 0xA0 :: u8] = 7
   \<and> (0 :: nat) < 6
   \<and> (0x00 :: u8) \<noteq> [0xA0, 0x00, 0x00, 0x00, 0x00, 0x00, 0xA0] ! 0
   \<and> Get ([0xA0, 0x00, 0x00, 0x00, 0x00, 0x00, 0xA0][0 := 0x00]) VOLTAGE
       = Inl UnexpectedResponseType
   \<and> UnexpectedResponseType \<noteq> ChecksumMismatch
   \<and> length [0xA2, 0x00, 0x00, 0x00, 0x00, 0x00, 0xA3 :: u8] = 7
   \<and> (1 :: nat) < 6
   \<and> (0x01 :: u8) \<noteq> [0xA2, 0x00, 0x00, 0x00, 0x00, 0x00, 0xA3] ! 1
   \<and> Get ([0xA2, 0x00, 0x00, 0x00, 0x00, 0x00, 0xA3][1 := 0x01]) POWER = Inr 256"
proof -
  have "Get ([0xA0, 0x00, 0x00, 0x00, 0x00, 0x00, 0xA0][0 := 0x00]) VOLTAGE
      = Inl UnexpectedResponseType"
    by (simp add: Get_def Ensure_def UnexpectedResponseType_def)
  moreover have "Get ([0xA2, 0x00, 0x00, 0x00, 0x00, 0x00, 0xA3][1 := 0x01]) POWER = Inr 256"
    using f32_of_int_exact [of 256]
    by (simp add: Get_def Ensure_def GetChecksum_sum)
  ultimately show ?thesis
    by (simp add: UnexpectedResponseType_def ChecksumMismatch_def)
qed

text \<open>
  C4. For every sensor and every 7-byte response whose byte 0 is not \<open>0xA0 | code\<close> of
  that sensor, decoding fails with the response-type error and returns no value, whatever
  the checksum and the other bytes are: the check of the type byte is the first one.
\<close>

theorem C4_type_mismatch:
  assumes "length Body = 7" and "uint (Body ! 0) \<noteq> (0xA0 OR sensor_code sens)"
  shows "Get Body sens = Inl UnexpectedResponseType"
  using assms(2) by (simp add: Get_def Ensure_def UnexpectedResponseType_def)

theorem C4_witness:
  "length [0xA1, 0x09, 0x00, 0x00, 0x03, 0x00, 0x55 :: u8] = 7
   \<and> uint ([0xA1, 0x09, 0x00, 0x00, 0x03, 0x00, 0x55 :: u8] ! 0) \<noteq> (0xA0 OR sensor_code VOLTAGE)
   \<and> Get [0xA1, 0x09, 0x00, 0x00, 0x03, 0x00, 0x55] VOLTAGE = Inl UnexpectedResponseType"
  using C4_type_mismatch [of "[0xA1, 0x09, 0x00, 0x00, 0x03, 0x00, 0x55]" VOLTAGE] by simp

text \<open>
  C5. For every sensor and every 7-byte response with the right type byte and the right
  checksum, if one of the bytes that the sensor requires to be zero is not, decoding
  fails with the malformed-field error of that sensor, and the byte it names is the first
  such byte in the order of the checks. For Power, a non-zero \<open>B3\<close> fails with the
  message naming \<^verbatim>\<open>Body[3]\<close>.
\<close>

theorem C5_malformed_field:
  assumes "length Body = 7"
    and "uint (Body ! 0) = (0xA0 OR sensor_code sens)"
    and "Body ! 6 = GetChecksum Body"
    and "j \<in> set (zero_bytes sens)" and "Body ! j \<noteq> 0"
  shows "Get Body sens =
           Inl (MalformedField sens (hd (filter (\<lambda>i. Body ! i \<noteq> 0) (zero_bytes sens))))
         \<and> (sens = POWER \<and> j = 3 \<longrightarrow> Get Body sens = Inl (RuntimeError ''POWER: Body[3]''))"
  using assms(2-)
  by (cases sens) (auto simp add: Get_def Ensure_def MalformedField_def)

theorem C5_witness:
  "length [0xA2, 0x00, 0x00, 0x01, 0x00, 0x00, 0xA3 :: u8] = 7
   \<and> uint ([0xA2, 0x00, 0x00, 0x01, 0x00, 0x00, 0xA3 :: u8] ! 0) = (0xA0 OR sensor_code POWER)
   \<and> [0xA2, 0x00, 0x00, 0x01, 0x00, 0x00, 0xA3 :: u8] ! 6
       = GetChecksum [0xA2, 0x00, 0x00, 0x01, 0x00, 0x00, 0xA3]
   \<and> (3 :: nat) \<in> set (zero_bytes POWER)
   \<and> [0xA2, 0x00, 0x00, 0x01, 0x00, 0x00, 0xA3 :: u8] ! 3 \<noteq> 0
   \<and> Get [0xA2, 0x00, 0x00, 0x01, 0x00, 0x00, 0xA3] POWER = Inl (MalformedField POWER 3)
   \<and> Get [0xA2, 0x00, 0x00, 0x01, 0x00, 0x00, 0xA3] POWER = Inl (RuntimeError ''POWER: Body[3]'')"
  using C5_malformed_field [of "[0xA2, 0x00, 0x00, 0x01, 0x00, 0x00, 0xA3]" POWER 3]
  by (simp add: GetChecksum_sum MalformedField_def)

text \<open>
  C6. \<open>Get\<close> is a function of the body and the sensor alone. For each of the five
  sensors and every 7-byte body it returns a value or fails with one of the three kinds
  of error, the malformed-field error naming the sensor and one of its bytes.
\<close>

theorem C6_total:
  assumes "length Body = 7"
  shows "(\<exists>v. Get Body sens = Inr v)
         \<or> Get Body sens = Inl UnexpectedResponseType
         \<or> Get Body sens = Inl ChecksumMismatch
         \<or> (\<exists>i \<in> set (zero_bytes sens). Get Body sens = Inl (MalformedField sens i))"
  by (cases sens)
     (auto simp add: Get_def Ensure_def UnexpectedResponseType_def ChecksumMismatch_def
        MalformedField_def)

theorem C6_witness:
  "length [0xA4, 0x00, 0x00, 0x00, 0x00, 0x07, 0xAB :: u8] = 7
   \<and> ((\<exists>v. Get [0xA4, 0x00, 0x00, 0x00, 0x00, 0x07, 0xAB] TEST = Inr v)
       \<or> Get [0xA4, 0x00, 0x00, 0x00, 0x00, 0x07, 0xAB] TEST = Inl UnexpectedResponseType
       \<or> Get [0xA4, 0x00, 0x00, 0x00, 0x00, 0x07, 0xAB] TEST = Inl ChecksumMismatch
       \<or> (\<exists>i \<in> set (zero_bytes TEST).
             Get [0xA4, 0x00, 0x00, 0x00, 0x00, 0x07, 0xAB] TEST = Inl (MalformedField TEST i)))"
  using C6_total [of "[0xA4, 0x00, 0x00, 0x00, 0x00, 0x07, 0xAB]" TEST] by simp

text \<open>
  C7, as amended. Round trip. Take the request of a sensor, set the direction bits of its
  type byte to \<open>0xA0\<close> keeping the sensor code, replace the payload bytes 1 to 5 by bytes
  that satisfy the sensor's zero checks, and store the recomputed checksum in byte 6.
  Decoding that packet for the same sensor succeeds. For Power, Energy and Test the value
  is exactly the value of the table on the payload. For Voltage and Current it is the
  formula computed in single precision, \<open>B3/10\<close> (\<open>B3/100\<close>) rounded to binary32, added
  to \<open>256*B1 + B2\<close> and rounded again: within \<open>2 ^ - 8 + 2 ^ - 20\<close> of the value of the
  table, and equal to it when \<open>B3\<close> is a multiple of 5 (of 25).
\<close>

theorem C7_round_trip_amended:
  assumes "pkt = (Request sens)[0 := 0xA0 OR (Request sens ! 0 AND 0x0F),
                                1 := b1, 2 := b2, 3 := b3, 4 := b4, 5 := b5]"
    and "\<forall>i \<in> set (zero_bytes sens). pkt ! i = 0"
    and "B1 = uint b1" and "B2 = uint b2" and "B3 = uint b3"
  shows "\<exists>v. Get (pkt[6 := GetChecksum pkt]) sens = Inr v
     \<and> \<bar>v - spec_value sens B1 B2 B3\<bar> \<le> 1 / 256 + 1 / 1048576
     \<and> (sens = POWER \<or> sens = ENERGY \<or> sens = TEST \<longrightarrow> v = spec_value sens B1 B2 B3)
     \<and> (sens = VOLTAGE \<longrightarrow>
          v = f32_round (of_int (256 * B1 + B2) + f32_round (of_int B3 / 10))
          \<and> (5 dvd B3 \<longrightarrow> v = spec_value sens B1 B2 B3))
     \<and> (sens = CURRENT \<longrightarrow>
          v = f32_round (of_int (256 * B1 + B2) + f32_round (of_int B3 / 100))
          \<and> (25 dvd B3 \<longrightarrow> v = spec_value sens B1 B2 B3))"
proof -
  have len: "length (pkt[6 := GetChecksum pkt]) = 7"
    by (cases sens) (simp_all add: assms(1) Request_cases)
  have ty: "uint (pkt[6 := GetChecksum pkt] ! 0) = (0xA0 OR sensor_code sens)"
    by (cases sens) (simp_all add: assms(1) Request_cases)
  have ck: "pkt[6 := GetChecksum pkt] ! 6 = GetChecksum (pkt[6 := GetChecksum pkt])"
    by (cases sens) (simp_all add: assms(1) Request_cases GetChecksum_sum)
  have z: "\<forall>i \<in> set (zero_bytes sens). pkt[6 := GetChecksum pkt] ! i = 0"
    using assms(2) by (cases sens) simp_all
  have b: "pkt[6 := GetChecksum pkt] ! 1 = b1" "pkt[6 := GetChecksum pkt] ! 2 = b2"
    "pkt[6 := GetChecksum pkt] ! 3 = b3"
    by (cases sens; simp add: assms(1) Request_cases)+
  have p: "B1 = uint (pkt[6 := GetChecksum pkt] ! 1)" "B2 = uint (pkt[6 := GetChecksum pkt] ! 2)"
    "B3 = uint (pkt[6 := GetChecksum pkt] ! 3)"
    by (simp_all only: b assms(3-5))
  show ?thesis
    by (rule Get_pass_spec [OF len ty ck z p])
qed

text \<open>
  The request of Voltage with payload 00 E6 05 00 00 becomes the response
  A0 00 E6 05 00 00 8B and decodes to the 230.5 of the table; the request of Energy with
  payload 00 01 2C 00 00 decodes to 300.
\<close>

theorem C7_witness:
  "[0xA0, 0x00, 0xE6, 0x05, 0x00, 0x00, 0x1A :: u8]
     = (Request VOLTAGE)[0 := 0xA0 OR (Request VOLTAGE ! 0 AND 0x0F),
                         1 := 0x00, 2 := 0xE6, 3 := 0x05, 4 := 0x00, 5 := 0x00]
   \<and> zero_bytes VOLTAGE = [4, 5]
   \<and> [0xA0, 0x00, 0xE6, 0x05, 0x00, 0x00, 0x1A :: u8] ! 4 = 0
   \<and> [0xA0, 0x00, 0xE6, 0x05, 0x00, 0x00, 0x1A :: u8] ! 5 = 0
   \<and> (5 :: int) dvd uint (0x05 :: u8)
   \<and> Get ([0xA0, 0x00, 0xE6, 0x05, 0x00, 0x00, 0x1A]
            [6 := GetChecksum [0xA0, 0x00, 0xE6, 0x05, 0x00, 0x00, 0x1A]]) VOLTAGE
       = Inr (spec_value VOLTAGE 0 230 5)
   \<and> spec_value VOLTAGE 0 230 5 = 230.5
   \<and> [0xA3, 0x00, 0x01, 0x2C, 0x00, 0x00, 0x1D :: u8]
     = (Request ENERGY)[0 := 0xA0 OR (Request ENERGY ! 0 AND 0x0F),
                        1 := 0x00, 2 := 0x01, 3 := 0x2C, 4 := 0x00, 5 := 0x00]
   \<and> Get [0xA3, 0x00, 0x01, 0x2C, 0x00, 0x00, 0xD0] ENERGY = Inr 300"
proof -
  have pv: "[0xA0, 0x00, 0xE6, 0x05, 0x00, 0x00, 0x1A :: u8]
     = (Request VOLTAGE)[0 := 0xA0 OR (Request VOLTAGE ! 0 AND 0x0F),
                         1 := 0x00, 2 := 0xE6, 3 := 0x05, 4 := 0x00, 5 := 0x00]"
    by (simp add: Request_cases)
  have zv: "\<forall>i \<in> set (zero_bytes VOLTAGE). [0xA0, 0x00, 0xE6, 0x05, 0x00, 0x00, 0x1A :: u8] ! i = 0"
    by simp
  have uv: "(0 :: int) = uint (0x00 :: u8)" "(230 :: int) = uint (0xE6 :: u8)"
    "(5 :: int) = uint (0x05 :: u8)"
    by simp_all
  from C7_round_trip_amended [OF pv zv uv]
  obtain v where v: "Get ([0xA0, 0x00, 0xE6, 0x05, 0x00, 0x00, 0x1A]
            [6 := GetChecksum [0xA0, 0x00, 0xE6, 0x05, 0x00, 0x00, 0x1A]]) VOLTAGE = Inr v"
    and "(5 :: int) dvd 5 \<longrightarrow> v = spec_value VOLTAGE 0 230 5"
    by blast
  then have gv: "Get ([0xA0, 0x00, 0xE6, 0x05, 0x00, 0x00, 0x1A]
            [6 := GetChecksum [0xA0, 0x00, 0xE6, 0x05, 0x00, 0x00, 0x1A]]) VOLTAGE
       = Inr (spec_value VOLTAGE 0 230 5)"
    by simp
  have pe: "[0xA3, 0x00, 0x01, 0x2C, 0x00, 0x00, 0x1D :: u8]
     = (Request ENERGY)[0 := 0xA0 OR (Request ENERGY ! 0 AND 0x0F),
                        1 := 0x00, 2 := 0x01, 3 := 0x2C, 4 := 0x00, 5 := 0x00]"
    by (simp add: Request_cases)
  have ze: "\<forall>i \<in> set (zero_bytes ENERGY). [0xA3, 0x00, 0x01, 0x2C, 0x00, 0x00, 0x1D :: u8] ! i = 0"
    by simp
  have ue: "(0 :: int) = uint (0x00 :: u8)" "(1 :: int) = uint (0x01 :: u8)"
    "(44 :: int) = uint (0x2C :: u8)"
    by simp_all
  from C7_round_trip_amended [OF pe ze ue]
  obtain w where w: "Get ([0xA3, 0x00, 0x01, 0x2C, 0x00, 0x00, 0x1D]
            [6 := GetChecksum [0xA3, 0x00, 0x01, 0x2C, 0x00, 0x00, 0x1D]]) ENERGY = Inr w"
    and "w = spec_value ENERGY 0 1 44"
    by blast
  then have ge: "Get [0xA3, 0x00, 0x01, 0x2C, 0x00, 0x00, 0xD0] ENERGY = Inr 300"
    by (simp add: GetChecksum_sum)
  have rest: "zero_bytes VOLTAGE = [4, 5]"
    "[0xA0, 0x00, 0xE6, 0x05, 0x00, 0x00, 0x1A :: u8] ! 4 = 0"
    "[0xA0, 0x00, 0xE6, 0x05, 0x00, 0x00, 0x1A :: u8] ! 5 = 0"
    "(5 :: int) dvd uint (0x05 :: u8)"
    "spec_value VOLTAGE 0 230 5 = 230.5"
    by simp_all
  from pv rest gv pe ge show ?thesis by (intro conjI)
qed

text \<open>
  C7 as written fails for Voltage and Current. The request of Voltage with payload
  00 E6 01 00 00 becomes the response A0 00 E6 01 00 00 87 and decodes to
  \<open>7539917 / 2 ^ 15\<close>, not to the 230.1 of the table; the request of Current with payload
  00 01 12 00 00 decodes to \<open>4949279 / 2 ^ 22\<close>, not to 1.18.
\<close>

theorem C7_counterexample:
  "[0xA0, 0x00, 0xE6, 0x01, 0x00, 0x00, 0x1A :: u8]
     = (Request VOLTAGE)[0 := 0xA0 OR (Request VOLTAGE ! 0 AND 0x0F),
                         1 := 0x00, 2 := 0xE6, 3 := 0x01, 4 := 0x00, 5 := 0x00]
   \<and> [0xA0, 0x00, 0xE6, 0x01, 0x00, 0x00, 0x1A :: u8] ! 4 = 0
   \<and> [0xA0, 0x00, 0xE6, 0x01, 0x00, 0x00, 0x1A :: u8] ! 5 = 0
   \<and> Get ([0xA0, 0x00, 0xE6, 0x01, 0x00, 0x00, 0x1A]
            [6 := GetChecksum [0xA0, 0x00, 0xE6, 0x01, 0x00, 0x00, 0x1A]]) VOLTAGE
       = Inr (7539917 / 32768)
   \<and> spec_value VOLTAGE 0 230 1 = 2301 / 10
   \<and> (7539917 / 32768 :: real) \<noteq> 2301 / 10
   \<and> [0xA1, 0x00, 0x01, 0x12, 0x00, 0x00, 0x1B :: u8]
     = (Request CURRENT)[0 := 0xA0 OR (Request CURRENT ! 0 AND 0x0F),
                         1 := 0x00, 2 := 0x01, 3 := 0x12, 4 := 0x00, 5 := 0x00]
   \<and> [0xA1, 0x00, 0x01, 0x12, 0x00, 0x00, 0x1B :: u8] ! 4 = 0
   \<and> [0xA1, 0x00, 0x01, 0x12, 0x00, 0x00, 0x1B :: u8] ! 5 = 0
   \<and> Get ([0xA1, 0x00, 0x01, 0x12, 0x00, 0x00, 0x1B]
            [6 := GetChecksum [0xA1, 0x00, 0x01, 0x12, 0x00, 0x00, 0x1B]]) CURRENT
       = Inr (4949279 / 4194304)
   \<and> spec_value CURRENT 0 1 18 = 118 / 100
   \<and> (4949279 / 4194304 :: real) \<noteq> 118 / 100"
proof -
  have pv: "[0xA0, 0x00, 0xE6, 0x01, 0x00, 0x00, 0x1A :: u8]
     = (Request VOLTAGE)[0 := 0xA0 OR (Request VOLTAGE ! 0 AND 0x0F),
                         1 := 0x00, 2 := 0xE6, 3 := 0x01, 4 := 0x00, 5 := 0x00]"
    by (simp add: Request_cases)
  have gv: "Get ([0xA0, 0x00, 0xE6, 0x01, 0x00, 0x00, 0x1A]
            [6 := GetChecksum [0xA0, 0x00, 0xE6, 0x01, 0x00, 0x00, 0x1A]]) VOLTAGE
       = Inr (7539917 / 32768)"
    by (simp add: Get_pass GetChecksum_sum f32_round_1_10 f32_round_230_1)
  have pc: "[0xA1, 0x00, 0x01, 0x12, 0x00, 0x00, 0x1B :: u8]
     = (Request CURRENT)[0 := 0xA0 OR (Request CURRENT ! 0 AND 0x0F),
                         1 := 0x00, 2 := 0x01, 3 := 0x12, 4 := 0x00, 5 := 0x00]"
    by (simp add: Request_cases)
  have gc: "Get ([0xA1, 0x00, 0x01, 0x12, 0x00, 0x00, 0x1B]
            [6 := GetChecksum [0xA1, 0x00, 0x01, 0x12, 0x00, 0x00, 0x1B]]) CURRENT
       = Inr (4949279 / 4194304)"
    by (simp add: Get_pass GetChecksum_sum f32_round_9_50 f32_round_1_18)
  have rest: "[0xA0, 0x00, 0xE6, 0x01, 0x00, 0x00, 0x1A :: u8] ! 4 = 0"
    "[0xA0, 0x00, 0xE6, 0x01, 0x00, 0x00, 0x1A :: u8] ! 5 = 0"
    "spec_value VOLTAGE 0 230 1 = 2301 / 10"
    "(7539917 / 32768 :: real) \<noteq> 2301 / 10"
    "[0xA1, 0x00, 0x01, 0x12, 0x00, 0x00, 0x1B :: u8] ! 4 = 0"
    "[0xA1, 0x00, 0x01, 0x12, 0x00, 0x00, 0x1B :: u8] ! 5 = 0"
    "spec_value CURRENT 0 1 18 = 118 / 100"
    "(4949279 / 4194304 :: real) \<noteq> 118 / 100"
    by simp_all
  from pv gv pc gc rest show ?thesis by (intro conjI)
qed

text \<open>
  C8. In \<^verbatim>\<open>Device::Get\<close>, once the request is written in full, the wait is one call of
  \<^verbatim>\<open>select\<close> with the timeout of one second; when its result is zero or negative the
  exchange fails with the timeout error, and neither \<^verbatim>\<open>read\<close> nor the decoder is reached:
  the calls made are the write and the select.
\<close>

theorem C8_timeout:
  assumes "write_result ch = 7" and "select_result ch \<le> 0"
  shows "Device_Get ch sens = ([SysWrite (Request sens), SysSelect 1 0], Inl TimeoutError)"
  using assms
  by (simp add: Device_Get_def SendRequest_def WaitResponse_def CheckResult_def Ensure_def
      TimeoutError_def Let_def)

theorem C8_witness:
  "write_result \<lparr>write_result = 7, select_result = 0, fd_isset = False, read_result = 7,
       read_bytes = [0xA0, 0x00, 0xE6, 0x05, 0x00, 0x00, 0x8B], strerror_errno = ''Success''\<rparr> = 7
   \<and> select_result \<lparr>write_result = 7, select_result = 0, fd_isset = False, read_result = 7,
       read_bytes = [0xA0, 0x00, 0xE6, 0x05, 0x00, 0x00, 0x8B], strerror_errno = ''Success''\<rparr> \<le> 0
   \<and> Device_Get \<lparr>write_result = 7, select_result = 0, fd_isset = False, read_result = 7,
       read_bytes = [0xA0, 0x00, 0xE6, 0x05, 0x00, 0x00, 0x8B], strerror_errno = ''Success''\<rparr>
       VOLTAGE
     = ([SysWrite [0xB0, 0xC0, 0xA8, 0x01, 0x01, 0x00, 0x1A], SysSelect 1 0],
        Inl (RuntimeError ''Timeout while reading''))"
  using C8_timeout [of "\<lparr>write_result = 7, select_result = 0, fd_isset = False, read_result = 7,
       read_bytes = [0xA0, 0x00, 0xE6, 0x05, 0x00, 0x00, 0x8B], strerror_errno = ''Success''\<rparr>"
      VOLTAGE]
  by (simp add: Request_cases TimeoutError_def)

text \<open>
  C9. Decoding a request as a response always fails with the response-type error,
  whichever sensor the request is for and whichever sensor is expected, although the
  checksum of a request is valid: its type byte \<open>0xB0 | code'\<close> is never \<open>0xA0 | code\<close>.
\<close>

theorem C9_request_rejected:
  "Get (Request sens') sens = Inl UnexpectedResponseType
   \<and> uint (Request sens' ! 0) = (0xB0 OR sensor_code sens')
   \<and> (0xB0 OR sensor_code sens') \<noteq> (0xA0 OR sensor_code sens)
   \<and> Request sens' ! 6 = GetChecksum (Request sens')"
  by (cases sens; cases sens')
     (simp_all add: Request_cases Get_def Ensure_def UnexpectedResponseType_def GetChecksum_sum)

text \<open>
  C10. Whenever decoding succeeds the value is not negative. A Power value is the integer
  \<open>256*B1 + B2\<close>, between 0 and 65535, an Energy value the integer
  \<open>65536*B1 + 256*B2 + B3\<close>, between 0 and 16777215; both are below \<open>2 ^ 24\<close>, and the
  conversion of such an integer to \<^verbatim>\<open>float\<close> does not round.
\<close>

theorem C10_value_range:
  assumes "length Body = 7" and "Get Body sens = Inr v"
  shows "0 \<le> v
     \<and> (sens = POWER \<longrightarrow>
          (let n = 256 * uint (Body ! 1) + uint (Body ! 2)
           in v = of_int n \<and> 0 \<le> n \<and> n \<le> 65535 \<and> n < 2 ^ 24 \<and> f32_of_int n = of_int n))
     \<and> (sens = ENERGY \<longrightarrow>
          (let n = 65536 * uint (Body ! 1) + 256 * uint (Body ! 2) + uint (Body ! 3)
           in v = of_int n \<and> 0 \<le> n \<and> n \<le> 16777215 \<and> n < 2 ^ 24 \<and> f32_of_int n = of_int n))"
proof -
  have ok: "uint (Body ! 0) = (0xA0 OR sensor_code sens)" "Body ! 6 = GetChecksum Body"
    "\<forall>i \<in> set (zero_bytes sens). Body ! i = 0"
    using Get_success [OF assms(2)] by simp_all
  have v: "v = (case sens of
           VOLTAGE \<Rightarrow> f32_round (of_int (256 * uint (Body ! 1) + uint (Body ! 2))
                                   + f32_round (of_int (uint (Body ! 3)) / 10))
         | CURRENT \<Rightarrow> f32_round (of_int (256 * uint (Body ! 1) + uint (Body ! 2))
                                   + f32_round (of_int (uint (Body ! 3)) / 100))
         | POWER \<Rightarrow> of_int (256 * uint (Body ! 1) + uint (Body ! 2))
         | ENERGY \<Rightarrow> of_int (65536 * uint (Body ! 1) + 256 * uint (Body ! 2) + uint (Body ! 3))
         | TEST \<Rightarrow> 0)"
    using Get_pass [OF assms(1) ok] assms(2) by simp
  have b: "0 \<le> uint (Body ! 1) \<and> uint (Body ! 1) < 256"
    "0 \<le> uint (Body ! 2) \<and> uint (Body ! 2) < 256"
    "0 \<le> uint (Body ! 3) \<and> uint (Body ! 3) < 256"
    by (rule uint_u8_bound)+
  have q: "0 \<le> f32_round (real_of_int n + f32_round (real_of_int k / c))"
    if "0 \<le> n" and "0 \<le> k" and "0 < c" for n k :: int and c :: real
  proof -
    have "0 \<le> real_of_int k / c" using that by simp
    then have "0 \<le> f32_round (real_of_int k / c)" by (rule f32_round_nonneg)
    with that(1) have "0 \<le> real_of_int n + f32_round (real_of_int k / c)" by simp
    then show ?thesis by (rule f32_round_nonneg)
  qed
  have i: "0 \<le> 256 * uint (Body ! 1) + uint (Body ! 2)"
    "0 \<le> 65536 * uint (Body ! 1) + 256 * uint (Body ! 2) + uint (Body ! 3)"
    using b by simp_all
  have "0 \<le> v"
  proof (cases sens)
    case VOLTAGE
    show ?thesis unfolding v VOLTAGE Sensor.case using i(1) b(3) by (intro q) simp_all
  next
    case CURRENT
    show ?thesis unfolding v CURRENT Sensor.case using i(1) b(3) by (intro q) simp_all
  next
    case POWER
    show ?thesis unfolding v POWER Sensor.case using i(1) by (simp only: of_int_0_le_iff)
  next
    case ENERGY
    show ?thesis unfolding v ENERGY Sensor.case using i(2) by (simp only: of_int_0_le_iff)
  next
    case TEST
    show ?thesis unfolding v TEST Sensor.case by simp
  qed
  moreover have "sens = POWER \<longrightarrow>
          (let n = 256 * uint (Body ! 1) + uint (Body ! 2)
           in v = of_int n \<and> 0 \<le> n \<and> n \<le> 65535 \<and> n < 2 ^ 24 \<and> f32_of_int n = of_int n)"
    using b by (simp add: v Let_def f32_of_int_simps)
  moreover have "sens = ENERGY \<longrightarrow>
          (let n = 65536 * uint (Body ! 1) + 256 * uint (Body ! 2) + uint (Body ! 3)
           in v = of_int n \<and> 0 \<le> n \<and> n \<le> 16777215 \<and> n < 2 ^ 24 \<and> f32_of_int n = of_int n)"
    using b by (simp add: v Let_def f32_of_int_simps)
  ultimately show ?thesis by blast
qed

theorem C10_witness:
  "length [0xA2, 0x01, 0x02, 0x00, 0x00, 0x00, 0xA5 :: u8] = 7
   \<and> Get [0xA2, 0x01, 0x02, 0x00, 0x00, 0x00, 0xA5] POWER = Inr 258
   \<and> f32_of_int 258 = 258
   \<and> length [0xA3, 0x00, 0x01, 0x2C, 0x00, 0x00, 0xD0 :: u8] = 7
   \<and> Get [0xA3, 0x00, 0x01, 0x2C, 0x00, 0x00, 0xD0] ENERGY = Inr 300
   \<and> f32_of_int 300 = 300"
proof -
  have p: "Get [0xA2, 0x01, 0x02, 0x00, 0x00, 0x00, 0xA5] POWER = Inr 258"
    by (simp add: Get_pass GetChecksum_sum)
  have e: "Get [0xA3, 0x00, 0x01, 0x2C, 0x00, 0x00, 0xD0] ENERGY = Inr 300"
    by (simp add: Get_pass GetChecksum_sum)
  show ?thesis
    using C10_value_range [of "[0xA2, 0x01, 0x02, 0x00, 0x00, 0x00, 0xA5]" POWER 258]
      C10_value_range [of "[0xA3, 0x00, 0x01, 0x2C, 0x00, 0x00, 0xD0]" ENERGY 300] p e
    by (simp add: Let_def)
qed

end
